theory Spec2Isabelle
  imports Main "HOL-Library.Sublist" "HOL-Library.AList"
begin

section \<open>The scene dictionaries\<close>

text \<open>
  \<^verbatim>\<open>main.py\<close> keeps a scene as nested Python dictionaries. Every key holds a value of one
  fixed shape (a string, a list of strings, a dictionary, a list of dictionaries), so each
  dictionary is a record with one field per key. A key may be missing from a dictionary:
  the field is then \<open>None\<close>, and subscripting it raises \<open>KeyError\<close>. A string is a list
  of characters with codes 0 to 255; the texts of the file are all ASCII.

  Exceptions are values of type \<open>error\<close>. Besides the exceptions of Python there are
  two outcomes of the model's own: \<open>OutOfFuel\<close>, when the bound on the calls of the JSON
  decoder is used up, and \<open>NotModelled\<close>, where Python goes on with a value that the types
  below do not have (a number, a code point above 255, the \<open>repr\<close> of a list).
\<close>

datatype error =
    KeyError string
  | TypeError
  | SyntaxError string
  | JSONDecodeError
  | OutOfFuel
  | NotModelled

record lighting_dict =
  light_type :: "string option"
  light_source :: "string option"

record object_dict =
  obj_id :: "string option"
  obj_name :: "string option"
  obj_tags :: "string list option"
  obj_material :: "string option"
  obj_position :: "string option"

record scene_dict =
  scene_name :: "string option"
  overall_style :: "string option"
  lighting :: "lighting_dict option"
  objects :: "object_dict list option"

text \<open>The module-level literal \<open>scene_data\<close> (lines 17 to 61).\<close>

definition scene_data :: scene_dict where
  "scene_data = \<lparr>
     scene_name = Some ''Modern Loft Living Room'',
     overall_style = Some ''Minimalist, Industrial'',
     lighting = Some \<lparr>
       light_type = Some ''Natural, bright afternoon sun'',
       light_source = Some ''Large floor-to-ceiling windows'' \<rparr>,
     objects = Some [
       \<lparr> obj_id = Some ''sofa_01'',
         obj_name = Some ''Leather Sofa'',
         obj_tags = Some [''seating'', ''main furniture'', ''comfortable''],
         obj_material = Some ''Distressed brown leather'',
         obj_position = Some ''Center of the room, facing the windows'' \<rparr>,
       \<lparr> obj_id = Some ''table_01'',
         obj_name = Some ''Concrete Coffee Table'',
         obj_tags = Some [''table'', ''centerpiece'', ''functional''],
         obj_material = Some ''Polished concrete with steel legs'',
         obj_position = Some ''In front of the leather sofa'' \<rparr>,
       \<lparr> obj_id = Some ''plant_01'',
         obj_name = Some ''Fiddle Leaf Fig'',
         obj_tags = Some [''plant'', ''organic'', ''decoration'', ''life''],
         obj_material = Some ''Green leaves, terracotta pot'',
         obj_position = Some ''In the corner, near the windows'' \<rparr>,
       \<lparr> obj_id = Some ''lamp_01'',
         obj_name = Some ''Arc Floor Lamp'',
         obj_tags = Some [''lighting'', ''modern'', ''accent''],
         obj_material = Some ''Brushed nickel'',
         obj_position = Some ''Arching over the sofa from behind'' \<rparr>,
       \<lparr> obj_id = Some ''art_01'',
         obj_name = Some ''Abstract Painting'',
         obj_tags = Some [''art'', ''wall decor'', ''color accent''],
         obj_material = Some ''Canvas with bold blue and yellow strokes'',
         obj_position = Some ''On the exposed brick wall behind the sofa'' \<rparr> ] \<rparr>"

section \<open>Execution: the scene object, standard output, exceptions\<close>

text \<open>
  A dictionary is a mutable object and a function receives a reference to it, so the scene
  the functions work on is part of the state they run in, together with the text written
  to standard output so far. A computation takes that state and gives back either the
  exception it raised or its value, and the state it leaves behind.
\<close>

record world =
  scene :: scene_dict
  stdout :: string

type_synonym 'a py = "world \<Rightarrow> (error + 'a) \<times> world"

definition py_return :: "'a \<Rightarrow> 'a py" where
  "py_return x = (\<lambda>w. (Inr x, w))"

definition py_raise :: "error \<Rightarrow> 'a py" where
  "py_raise e = (\<lambda>w. (Inl e, w))"

definition py_bind :: "'a py \<Rightarrow> ('a \<Rightarrow> 'b py) \<Rightarrow> 'b py" where
  "py_bind m f = (\<lambda>w. case m w of (Inl e, w') \<Rightarrow> (Inl e, w') | (Inr x, w') \<Rightarrow> f x w')"

text \<open>The parameter \<open>scene\<close>: reading it gives the dictionary the reference points to.\<close>

definition scene_arg :: "scene_dict py" where
  "scene_arg = (\<lambda>w. (Inr (scene w), w))"

text \<open>\<open>d[key]\<close>: the value under the key, \<open>KeyError\<close> when the key is missing.\<close>

definition subscript :: "('d \<Rightarrow> 'v option) \<Rightarrow> string \<Rightarrow> 'd \<Rightarrow> 'v py" where
  "subscript field key d = (case field d of None \<Rightarrow> py_raise (KeyError key) | Some v \<Rightarrow> py_return v)"

text \<open>\<open>print(s)\<close> writes the text and a newline.\<close>

definition print :: "string \<Rightarrow> unit py" where
  "print s = (\<lambda>w. (Inr (), w\<lparr>stdout := stdout w @ s @ ''\<newline>''\<rparr>))"

text \<open>\<open>sep.join(xs)\<close> on a list of strings.\<close>

fun str_join :: "string \<Rightarrow> string list \<Rightarrow> string" where
  "str_join sep [] = []"
| "str_join sep [x] = x"
| "str_join sep (x # y # ys) = x @ sep @ str_join sep (y # ys)"

text \<open>A list comprehension \<open>[f(x) for x in xs]\<close>: left to right, stopping at the first exception.\<close>

fun comprehension :: "('a \<Rightarrow> 'b py) \<Rightarrow> 'a list \<Rightarrow> 'b list py" where
  "comprehension f [] = py_return []"
| "comprehension f (x # xs) =
     py_bind (f x) (\<lambda>y. py_bind (comprehension f xs) (\<lambda>ys. py_return (y # ys)))"

section \<open>The prompt composer\<close>

text \<open>
  The f-string of line 76, one object's entry. Its fields are evaluated left to right:
  \<open>name\<close>, \<open>material\<close>, \<open>position\<close>, \<open>tags\<close>.
\<close>

definition object_line :: "object_dict \<Rightarrow> string py" where
  "object_line obj =
     py_bind (subscript obj_name ''name'' obj) (\<lambda>name_v.
     py_bind (subscript obj_material ''material'' obj) (\<lambda>material_v.
     py_bind (subscript obj_position ''position'' obj) (\<lambda>position_v.
     py_bind (subscript obj_tags ''tags'' obj) (\<lambda>tags_v.
     py_return (''- '' @ name_v @ '': Made of '' @ material_v @ ''. Positioned at: '' @ position_v
                @ ''. Tags: '' @ str_join '', '' tags_v @ ''.'')))))"

text \<open>
  The f-string of lines 80 to 104: fixed text with five interpolated values between.
  \<open>template_head\<close> is the text before the first interpolation, \<open>template_tail\<close> the
  text after the last one.
\<close>

definition template_head :: string where
  \<open>template_head =
     ''\<newline>'' @
     ''    **Persona Instruction:**\<newline>'' @
     ''    You are an expert virtual curator and interior design storyteller for a high-end spatial computing platform. Your task is to transform raw 3D scene data into a rich, evocative, and engaging narrative. Do not just list the objects. Instead, weave them into a cohesive story that describes the atmosphere, the lifestyle of the imagined owner, and the interplay between the elements.\<newline>'' @
     ''\<newline>'' @
     ''    **Contextual Scene Data:**\<newline>'' @
     ''    - Scene Name: ''\<close>

definition template_tail :: string where
  \<open>template_tail =
     ''\<newline>'' @
     ''\<newline>'' @
     ''    **Task & Output Structure:**\<newline>'' @
     ''    Based on the data above, generate a JSON object with three distinct keys: "title", "narrative", and "design_suggestions".\<newline>'' @
     ''\<newline>'' @
     ''    1.  **title**: Create a short, catchy, and descriptive title for this scene.\<newline>'' @
     ''    2.  **narrative**: Write a detailed, multi-paragraph story about the space.\<newline>'' @
     ''        - Start by describing the overall feeling and atmosphere created by the lighting and style.\<newline>'' @
     ''        - Describe how the main furniture pieces (like the sofa and table) anchor the space.\<newline>'' @
     ''        - Integrate the decorative elements (plant, art) into the narrative, explaining how they contribute to the mood.\<newline>'' @
     ''        - Imply the personality of the person who lives here through your description.\<newline>'' @
     ''    3.  **design_suggestions**: Provide three actionable design suggestions as a list of strings. These should be creative ideas to enhance the space further, based on the existing elements. For example, suggest adding a complementary texture, a specific type of rug, or another piece of decor.\<newline>'' @
     ''\<newline>'' @
     ''    **Constraint:**\<newline>'' @
     ''    Your final output must be a single, valid JSON object and nothing else. Do not include any explanatory text before or after the JSON.\<newline>'' @
     ''    ''\<close>

definition prompt_template :: "string \<Rightarrow> string \<Rightarrow> string \<Rightarrow> string \<Rightarrow> string \<Rightarrow> string" where
  "prompt_template scene_name_v overall_style_v type_v source_v object_descriptions =
     template_head @ scene_name_v @ ''\<newline>'' @
     ''    - Dominant Style: '' @ overall_style_v @ ''\<newline>'' @
     ''    - Lighting Conditions: '' @ type_v @ '' from '' @ source_v @ ''\<newline>'' @
     ''    - Objects in Scene:\<newline>'' @
     ''    '' @ object_descriptions @ template_tail"

text \<open>
  \<open>create_curator_prompt(scene)\<close>: the object entries first (lines 75 to 78), then the
  template, whose interpolations are evaluated in the order they are written.
\<close>

definition create_curator_prompt :: "string py" where
  "create_curator_prompt =
     py_bind scene_arg (\<lambda>sc.
     py_bind (subscript objects ''objects'' sc) (\<lambda>objs.
     py_bind (comprehension object_line objs) (\<lambda>lines.
     let object_descriptions = str_join ''\<newline>'' lines in
     py_bind (subscript scene_name ''scene_name'' sc) (\<lambda>v1.
     py_bind (subscript overall_style ''overall_style'' sc) (\<lambda>v2.
     py_bind (subscript lighting ''lighting'' sc) (\<lambda>l1.
     py_bind (subscript light_type ''type'' l1) (\<lambda>v3.
     py_bind (subscript lighting ''lighting'' sc) (\<lambda>l2.
     py_bind (subscript light_source ''source'' l2) (\<lambda>v4.
     py_return (prompt_template v1 v2 v3 v4 object_descriptions))))))))))"


section \<open>Inputs that conform to the data model\<close>

text \<open>
  The keys the composer reads are all there: an object has \<open>name\<close>, \<open>material\<close>,
  \<open>position\<close> and \<open>tags\<close>; a scene has \<open>scene_name\<close>, \<open>overall_style\<close>, a
  \<open>lighting\<close> dictionary with \<open>type\<close> and \<open>source\<close>, and \<open>objects\<close>.
\<close>

definition object_ok :: "object_dict \<Rightarrow> bool" where
  "object_ok obj =
     (obj_name obj \<noteq> None \<and> obj_material obj \<noteq> None \<and> obj_position obj \<noteq> None \<and> obj_tags obj \<noteq> None)"

definition conforms :: "scene_dict \<Rightarrow> bool" where
  "conforms sc =
     (scene_name sc \<noteq> None \<and> overall_style sc \<noteq> None \<and>
      (case lighting sc of None \<Rightarrow> False | Some l \<Rightarrow> light_type l \<noteq> None \<and> light_source l \<noteq> None) \<and>
      (case objects sc of None \<Rightarrow> False | Some objs \<Rightarrow> list_all object_ok objs))"

text \<open>What the specification calls the line of an object, and the prompt of a scene.\<close>

definition entry_text :: "string \<Rightarrow> string \<Rightarrow> string \<Rightarrow> string list \<Rightarrow> string" where
  "entry_text displayName material position tags =
     ''- '' @ displayName @ '': Made of '' @ material @ ''. Positioned at: '' @ position
     @ ''. Tags: '' @ str_join '', '' tags @ ''.''"

definition object_text :: "object_dict \<Rightarrow> string" where
  "object_text obj =
     entry_text (the (obj_name obj)) (the (obj_material obj)) (the (obj_position obj)) (the (obj_tags obj))"

definition scene_objects :: "scene_dict \<Rightarrow> object_dict list" where
  "scene_objects sc = the (objects sc)"

definition prompt_with :: "scene_dict \<Rightarrow> string \<Rightarrow> string" where
  "prompt_with sc block =
     prompt_template (the (scene_name sc)) (the (overall_style sc))
       (the (light_type (the (lighting sc)))) (the (light_source (the (lighting sc)))) block"

section \<open>Frame conditions\<close>

text \<open>
  A computation is read-only when it hands back the state it was given: the scene object
  is as it was, and nothing was written to standard output. It is determined by the scene
  when its outcome (value or exception) is the same in any two states holding equal scenes.
\<close>

definition read_only :: "'a py \<Rightarrow> bool" where
  "read_only m = (\<forall>w. snd (m w) = w)"

definition scene_determined :: "'a py \<Rightarrow> bool" where
  "scene_determined m = (\<forall>w w'. scene w = scene w' \<longrightarrow> fst (m w) = fst (m w'))"

text \<open>The state at program start: \<open>scene_data\<close> as the scene, nothing printed yet.\<close>

definition loft_world :: world where
  "loft_world = \<lparr>scene = scene_data, stdout = []\<rparr>"

text \<open>The same state with the object list emptied.\<close>

definition empty_world :: world where
  "empty_world = \<lparr>scene = scene_data\<lparr>objects := Some []\<rparr>, stdout = []\<rparr>"

text \<open>The prompt text of the loft scene.\<close>

definition loft_prompt :: string where
  "loft_prompt =
     prompt_with scene_data (str_join ''\<newline>'' (map object_text (scene_objects scene_data)))"

section \<open>Lines of a text\<close>

text \<open>
  The lines of a string are the pieces between its newline characters, as
  \<open>s.split('\n')\<close> gives them. A string is a single line when it has no newline in it.
\<close>

definition single_line :: "string \<Rightarrow> bool" where
  "single_line s = (CHR ''\<newline>'' \<notin> set s)"

fun split_nl :: "string \<Rightarrow> string list" where
  "split_nl [] = [[]]"
| "split_nl (c # s) =
     (if c = CHR ''\<newline>'' then [] # split_nl s
      else (case split_nl s of [] \<Rightarrow> [[c]] | l # ls \<Rightarrow> (c # l) # ls))"

text \<open>The number of lines that start with a dash and a space.\<close>

definition dash_lines :: "string \<Rightarrow> nat" where
  "dash_lines p = length (filter (prefix ''- '') (split_nl p))"

text \<open>The same count when the blanks a line starts with are skipped first.\<close>

definition indented_dash_lines :: "string \<Rightarrow> nat" where
  "indented_dash_lines p =
     length (filter (\<lambda>l. prefix ''- '' (dropWhile (\<lambda>c. c = CHR '' '') l)) (split_nl p))"

text \<open>Scenes none of whose texts contains a newline.\<close>

definition object_single_line :: "object_dict \<Rightarrow> bool" where
  "object_single_line obj =
     (single_line (the (obj_name obj)) \<and> single_line (the (obj_material obj)) \<and>
      single_line (the (obj_position obj)) \<and> list_all single_line (the (obj_tags obj)))"

definition scene_single_line :: "scene_dict \<Rightarrow> bool" where
  "scene_single_line sc =
     (single_line (the (scene_name sc)) \<and> single_line (the (overall_style sc)) \<and>
      single_line (the (light_type (the (lighting sc)))) \<and>
      single_line (the (light_source (the (lighting sc)))) \<and>
      list_all object_single_line (scene_objects sc))"

text \<open>
  The lines that the object block contributes to the prompt: the block follows four blanks
  of the template, so its first entry (or the empty string) is appended to them.
\<close>

definition block_lines :: "string list \<Rightarrow> string list" where
  "block_lines entries = (case entries of [] \<Rightarrow> [''    ''] | e # es \<Rightarrow> (''    '' @ e) # es)"

section \<open>JSON text\<close>

text \<open>
  The values that \<^verbatim>\<open>main.py\<close> hands to the \<open>json\<close> module: strings, lists, and
  dictionaries with string keys (as a list of pairs, in insertion order).
\<close>

datatype json = JString string | JArray "json list" | JObject "(string \<times> json) list"

text \<open>
  \<open>json.dumps\<close> with the default \<open>ensure_ascii\<close>: inside a string, the quote and the
  backslash are escaped, a few control characters have short escapes, and every other
  character outside the printable ASCII range (blank to tilde) is written as a backslash, the
  letter u and four lower-case hexadecimal digits.
\<close>

definition hex_digit :: "nat \<Rightarrow> char" where
  "hex_digit n = ''0123456789abcdef'' ! n"

definition escape_char :: "char \<Rightarrow> string" where
  \<open>escape_char c =
     (if c = CHR ''"'' then [CHR 0x5C, CHR ''"'']
      else if c = CHR 0x5C then [CHR 0x5C, CHR 0x5C]
      else if c = CHR ''\<newline>'' then [CHR 0x5C, CHR ''n'']
      else if c = CHR 0x0D then [CHR 0x5C, CHR ''r'']
      else if c = CHR 0x09 then [CHR 0x5C, CHR ''t'']
      else if c = CHR 0x08 then [CHR 0x5C, CHR ''b'']
      else if c = CHR 0x0C then [CHR 0x5C, CHR ''f'']
      else if of_char c < (0x20 :: nat) \<or> (0x7E :: nat) < of_char c
        then [CHR 0x5C, CHR ''u'', CHR ''0'', CHR ''0'',
              hex_digit (of_char c div 16), hex_digit (of_char c mod 16)]
      else [c])\<close>

definition escape_string :: "string \<Rightarrow> string" where
  "escape_string s = concat (map escape_char s)"

definition encode_basestring_ascii :: "string \<Rightarrow> string" where
  \<open>encode_basestring_ascii s = ''"'' @ escape_string s @ ''"''\<close>

text \<open>
  With \<open>indent\<close> given, a non-empty list or dictionary puts each item on a line of its
  own, indented by \<open>indent\<close> blanks per nesting level; items are separated by a comma,
  a key from its value by a colon and a blank. Empty containers are \<open>[]\<close> and \<open>{}\<close>.
\<close>

definition newline_indent :: "nat \<Rightarrow> nat \<Rightarrow> string" where
  "newline_indent indent level = CHR ''\<newline>'' # replicate (indent * level) CHR '' ''"

fun iterencode :: "nat \<Rightarrow> nat \<Rightarrow> json \<Rightarrow> string" where
  "iterencode indent level (JString s) = encode_basestring_ascii s"
| "iterencode indent level (JArray []) = ''[]''"
| "iterencode indent level (JArray (x # xs)) =
     ''['' @ newline_indent indent (level + 1)
     @ str_join ('','' @ newline_indent indent (level + 1))
         (map (iterencode indent (level + 1)) (x # xs))
     @ newline_indent indent level @ '']''"
| "iterencode indent level (JObject []) = ''{}''"
| "iterencode indent level (JObject (kv # kvs)) =
     ''{'' @ newline_indent indent (level + 1)
     @ str_join ('','' @ newline_indent indent (level + 1))
         (map (\<lambda>(k, v). encode_basestring_ascii k @ '': '' @ iterencode indent (level + 1) v) (kv # kvs))
     @ newline_indent indent level @ ''}''"

definition json_dumps :: "json \<Rightarrow> nat \<Rightarrow> string" where
  "json_dumps obj indent = iterencode indent 0 obj"


text \<open>
  \<open>json.loads\<close>: a recursive-descent decoder. White space is blank, tab, newline and
  carriage return.
\<close>

definition is_ws :: "char \<Rightarrow> bool" where
  "is_ws c = (c = CHR '' '' \<or> c = CHR 0x09 \<or> c = CHR ''\<newline>'' \<or> c = CHR 0x0D)"

definition skip_ws :: "string \<Rightarrow> string" where
  "skip_ws s = dropWhile is_ws s"

text \<open>
  A string ends at the closing quote. A backslash starts an escape: one of eight letters,
  or \<open>u\<close> and four hexadecimal digits. A raw control character is an error (the decoder
  is strict by default).
\<close>

definition hex_value :: "char \<Rightarrow> nat option" where
  "hex_value c =
     (let n = (of_char c :: nat) in
      if 0x30 \<le> n \<and> n \<le> 0x39 then Some (n - 0x30)
      else if 0x61 \<le> n \<and> n \<le> 0x66 then Some (n - 0x61 + 10)
      else if 0x41 \<le> n \<and> n \<le> 0x46 then Some (n - 0x41 + 10)
      else None)"

definition backslash :: "char \<Rightarrow> char option" where
  \<open>backslash esc =
     (if esc = CHR ''"'' then Some CHR ''"''
      else if esc = CHR 0x5C then Some CHR 0x5C
      else if esc = CHR ''/'' then Some CHR ''/''
      else if esc = CHR ''b'' then Some CHR 0x08
      else if esc = CHR ''f'' then Some CHR 0x0C
      else if esc = CHR ''n'' then Some CHR ''\<newline>''
      else if esc = CHR ''r'' then Some CHR 0x0D
      else if esc = CHR ''t'' then Some CHR 0x09
      else None)\<close>

fun scanstring :: "string \<Rightarrow> string \<Rightarrow> error + (string \<times> string)" where
  "scanstring acc [] = Inl JSONDecodeError"
| \<open>scanstring acc (c # s) =
     (if c = CHR ''"'' then Inr (rev acc, s)
      else if c = CHR 0x5C then
        (case s of
           [] \<Rightarrow> Inl JSONDecodeError
         | esc # s1 \<Rightarrow>
             if esc = CHR ''u'' then
               (case s1 of
                  h1 # h2 # h3 # h4 # s2 \<Rightarrow>
                    (case (hex_value h1, hex_value h2, hex_value h3, hex_value h4) of
                       (Some d1, Some d2, Some d3, Some d4) \<Rightarrow>
                         (let uni = ((d1 * 16 + d2) * 16 + d3) * 16 + d4
                          in if uni < 256 then scanstring (char_of uni # acc) s2
                             else Inl NotModelled)
                     | _ \<Rightarrow> Inl JSONDecodeError)
                | _ \<Rightarrow> Inl JSONDecodeError)
             else
               (case backslash esc of
                  None \<Rightarrow> Inl JSONDecodeError
                | Some ch \<Rightarrow> scanstring (ch # acc) s1))
      else if of_char c < (0x20 :: nat) then Inl JSONDecodeError
      else scanstring (c # acc) s)\<close>

text \<open>
  One value, then the loops over the items of an array and of an object. Every call
  uses up one unit of \<open>fuel\<close>, which only serves to make the recursion end. A key
  that occurs again replaces the earlier value, as building a dictionary from the pairs
  does.
\<close>

fun scan_once :: "nat \<Rightarrow> string \<Rightarrow> error + (json \<times> string)"
  and array_loop :: "nat \<Rightarrow> json list \<Rightarrow> string \<Rightarrow> error + (json \<times> string)"
  and object_loop :: "nat \<Rightarrow> (string \<times> json) list \<Rightarrow> string \<Rightarrow> error + (json \<times> string)"
where
  "scan_once 0 s = Inl OutOfFuel"
| \<open>scan_once (Suc fuel) s =
     (case s of
        [] \<Rightarrow> Inl JSONDecodeError
      | c # r \<Rightarrow>
          if c = CHR ''"'' then
            (case scanstring [] r of
               Inl e \<Rightarrow> Inl e
             | Inr (str, rest) \<Rightarrow> Inr (JString str, rest))
          else if c = CHR ''{'' then
            (case skip_ws r of
               [] \<Rightarrow> Inl JSONDecodeError
             | c1 # r1 \<Rightarrow>
                 if c1 = CHR ''"'' then object_loop fuel [] r1
                 else if c1 = CHR ''}'' then Inr (JObject [], r1)
                 else Inl JSONDecodeError)
          else if c = CHR ''['' then
            (case skip_ws r of
               [] \<Rightarrow> Inl JSONDecodeError
             | c1 # r1 \<Rightarrow>
                 if c1 = CHR '']'' then Inr (JArray [], r1)
                 else array_loop fuel [] (c1 # r1))
          else if c \<in> set ''-0123456789ntfNI'' then Inl NotModelled
          else Inl JSONDecodeError)\<close>
| "array_loop 0 values s = Inl OutOfFuel"
| \<open>array_loop (Suc fuel) values s =
     (case scan_once fuel s of
        Inl e \<Rightarrow> Inl e
      | Inr (v, rest) \<Rightarrow>
          (case skip_ws rest of
             [] \<Rightarrow> Inl JSONDecodeError
           | c # r \<Rightarrow>
               if c = CHR '']'' then Inr (JArray (values @ [v]), r)
               else if c = CHR '','' then array_loop fuel (values @ [v]) (skip_ws r)
               else Inl JSONDecodeError))\<close>
| "object_loop 0 pairs s = Inl OutOfFuel"
| \<open>object_loop (Suc fuel) pairs s =
     (case scanstring [] s of
        Inl e \<Rightarrow> Inl e
      | Inr (key, rest) \<Rightarrow>
          (case skip_ws rest of
             [] \<Rightarrow> Inl JSONDecodeError
           | c # r \<Rightarrow>
               if c \<noteq> CHR '':'' then Inl JSONDecodeError
               else
                 (case scan_once fuel (skip_ws r) of
                    Inl e \<Rightarrow> Inl e
                  | Inr (v, rest1) \<Rightarrow>
                      (case skip_ws rest1 of
                         [] \<Rightarrow> Inl JSONDecodeError
                       | c2 # r2 \<Rightarrow>
                           if c2 = CHR ''}'' then Inr (JObject (AList.update key v pairs), r2)
                           else if c2 = CHR '','' then
                             (case skip_ws r2 of
                                [] \<Rightarrow> Inl JSONDecodeError
                              | c3 # r3 \<Rightarrow>
                                  if c3 = CHR ''"'' then object_loop fuel (AList.update key v pairs) r3
                                  else Inl JSONDecodeError)
                           else Inl JSONDecodeError))))\<close>

text \<open>
  The whole text is one value with white space around it. Between two characters read,
  \<open>scan_once\<close> is called at most once and a loop at most once, so twice the length of
  the text and one more is fuel enough: \<open>json_loads\<close> never answers \<open>OutOfFuel\<close>
  (lemma \<open>json_loads_fuel\<close> below). Python itself gives up with \<open>RecursionError\<close> on
  text nested deeper than the interpreter's recursion limit; there is no such limit here.
\<close>

definition json_loads :: "string \<Rightarrow> error + json" where
  "json_loads s =
     (case scan_once (Suc (length s + length s)) (skip_ws s) of
        Inl e \<Rightarrow> Inl e
      | Inr (obj, rest) \<Rightarrow> if skip_ws rest = [] then Inr obj else Inl JSONDecodeError)"

text \<open>The literal \<open>mock_response\<close> of \<open>generate_scene_content\<close> (lines 128 to 136).\<close>

definition mock_response :: json where
  \<open>mock_response = JObject [
     (''title'', JString ''Sun-Drenched Industrial Serenity''),
     (''narrative'', JString (
        ''As the bright afternoon sun streams through vast, floor-to-ceiling windows, it illuminates a space that is both raw and refined. '' @
        ''This modern loft is a sanctuary of minimalist industrial design, where every object feels intentional. '' @
        ''The centerpiece is a handsome, distressed brown leather sofa, its worn texture inviting you to sink in and relax. '' @
        ''It faces the light, suggesting a resident who appreciates warmth and openness.\<newline>\<newline>In front of it, a polished concrete coffee table stands as a testament to functional art, its cool surface and steel legs providing a stark, beautiful contrast to the sofa's warmth. '' @
        ''Life is breathed into the space by a tall Fiddle Leaf Fig, its vibrant green leaves reaching for the sun from a terracotta pot in the corner. '' @
        ''Above, a brushed nickel arc lamp elegantly sweeps over the seating area, ready to provide a focused glow as day turns to night. '' @
        ''The entire scene is anchored by a bold, abstract painting on the exposed brick wall, its energetic blue and yellow strokes infusing the calm space with a burst of creative spirit. '' @
        ''This is clearly the home of a discerning individual with an eye for design and a love for uncluttered, light-filled living.'')),
     (''design_suggestions'', JArray [
        JString ''Add a soft, high-pile wool rug in a neutral grey or cream color under the sofa and coffee table to soften the concrete and add textural warmth.'',
        JString ''Introduce a set of floating wooden shelves on the brick wall to display books or curated objects, adding a personal touch.'',
        JString ''Consider adding a single, comfortable armchair in a contrasting fabric like dark blue velvet to create a cozy reading nook.''])]\<close>

section \<open>The simulated call and the main block\<close>

text \<open>A value computed without the state, or the exception it raised, as a computation.\<close>

definition py_lift :: "error + 'a \<Rightarrow> 'a py" where
  "py_lift r = (case r of Inl e \<Rightarrow> py_raise e | Inr x \<Rightarrow> py_return x)"

text \<open>
  \<open>generate_scene_content(scene_data)\<close>, lines 109 to 138. The function is declared
  \<open>async\<close>, but its body has no \<open>await\<close>: once awaited it runs from start to end like
  an ordinary function. It passes on the reference it was given.
\<close>

definition generate_scene_content :: "string py" where
  "generate_scene_content =
     py_bind create_curator_prompt (\<lambda>prompt.
     py_bind (print ''--- Generated Prompt for LLM ---'') (\<lambda>_.
     py_bind (print prompt) (\<lambda>_.
     py_bind (print ''---------------------------------'') (\<lambda>_.
     py_return (json_dumps mock_response 2)))))"

text \<open>
  \<open>content_obj['title']\<close> on a decoded value: a dictionary is looked up, a list or a
  string cannot be subscripted by a string. The f-string then takes a string as it is;
  for a list or a dictionary Python would print its \<open>repr\<close>.
\<close>

definition json_getitem :: "json \<Rightarrow> string \<Rightarrow> error + json" where
  "json_getitem obj key =
     (case obj of
        JObject d \<Rightarrow> (case map_of d key of None \<Rightarrow> Inl (KeyError key) | Some v \<Rightarrow> Inr v)
      | JArray xs \<Rightarrow> Inl TypeError
      | JString s \<Rightarrow> Inl TypeError)"

definition format_json :: "json \<Rightarrow> error + string" where
  "format_json v = (case v of JString s \<Rightarrow> Inr s | JArray xs \<Rightarrow> Inl NotModelled | JObject d \<Rightarrow> Inl NotModelled)"

text \<open>The statements of the main block, lines 143 to 152, in the order they are written.\<close>

definition main_block :: "unit py" where
  "main_block =
     py_bind (print ''Generating 3D-aware content for the scene...'') (\<lambda>_.
     py_bind generate_scene_content (\<lambda>generated_content_json.
     py_bind (print ''\<newline>--- Generated Content (JSON Output) ---'') (\<lambda>_.
     py_bind (print generated_content_json) (\<lambda>_.
     py_bind (print ''--------------------------------------'') (\<lambda>_.
     py_bind (py_lift (json_loads generated_content_json)) (\<lambda>content_obj.
     py_bind (py_lift (json_getitem content_obj ''title'')) (\<lambda>title.
     py_bind (py_lift (format_json title)) (\<lambda>title_text.
     print (''\<newline>Title: '' @ title_text)))))))))"

text \<open>
  Running the file. Line 144 is \<open>generated_content_json = await generate_scene_content(scene_data)\<close>
  at module level, outside any function. Python compiles a module as a whole before it
  runs its first statement, and its compiler rejects an \<open>await\<close> outside a function with
  \<open>SyntaxError\<close>, unless it was asked to allow \<open>await\<close> at top level (as the asyncio
  console and notebooks do; \<open>python main.py\<close> does not). So without that permission no
  statement of the file runs; with it the main block runs.
\<close>

definition await_outside_function :: string where
  "await_outside_function = [CHR 0x27] @ ''await'' @ [CHR 0x27] @ '' outside function''"

definition run_main :: "bool \<Rightarrow> unit py" where
  "run_main top_level_await =
     (if top_level_await then main_block else py_raise (SyntaxError await_outside_function))"

text \<open>The text that the main block would print for the loft scene.\<close>

definition loft_output :: string where
  "loft_output =
     ''Generating 3D-aware content for the scene...\<newline>'' @
     ''--- Generated Prompt for LLM ---\<newline>'' @
     loft_prompt @ ''\<newline>'' @
     ''---------------------------------\<newline>'' @
     ''\<newline>--- Generated Content (JSON Output) ---\<newline>'' @
     json_dumps mock_response 2 @ ''\<newline>'' @
     ''--------------------------------------\<newline>'' @
     ''\<newline>Title: Sun-Drenched Industrial Serenity\<newline>''"

section \<open>Running the composer\<close>

lemma object_line_ok:
  assumes "object_ok obj"
  shows "object_line obj w = (Inr (object_text obj), w)"
  using assms
  by (auto simp: object_ok_def object_line_def object_text_def entry_text_def subscript_def
      py_bind_def py_return_def)

lemma comprehension_ok:
  assumes "list_all object_ok objs"
  shows "comprehension object_line objs w = (Inr (map object_text objs), w)"
  using assms
  by (induction objs) (simp_all add: py_return_def py_bind_def object_line_ok)

lemma create_curator_prompt_ok:
  assumes "conforms (scene w)"
  shows "create_curator_prompt w =
           (Inr (prompt_with (scene w) (str_join ''\<newline>'' (map object_text (scene_objects (scene w))))), w)"
proof -
  obtain n s l objs where f:
    "scene_name (scene w) = Some n" "overall_style (scene w) = Some s"
    "lighting (scene w) = Some l" "objects (scene w) = Some objs"
    using assms by (auto simp: conforms_def split: option.splits)
  obtain t src where g: "light_type l = Some t" "light_source l = Some src"
    using assms f by (auto simp: conforms_def)
  have objs: "list_all object_ok objs"
    using assms f by (simp add: conforms_def)
  show ?thesis
    by (simp add: create_curator_prompt_def scene_arg_def py_bind_def subscript_def py_return_def
        f g comprehension_ok [OF objs] prompt_with_def scene_objects_def)
qed

section \<open>Frame lemmas\<close>

lemma scene_data_conforms: "conforms scene_data"
  by (simp add: conforms_def scene_data_def object_ok_def)

lemma loft_world_conforms: "conforms (scene loft_world)"
  by (simp add: loft_world_def scene_data_conforms)

lemma read_only_return: "read_only (py_return x)"
  by (simp add: read_only_def py_return_def)

lemma read_only_raise: "read_only (py_raise e)"
  by (simp add: read_only_def py_raise_def)

lemma read_only_bind:
  assumes "read_only m" and "\<And>x. read_only (f x)"
  shows "read_only (py_bind m f)"
  unfolding read_only_def
proof
  fix w
  from assms(1) have m: "snd (m w) = w" by (simp add: read_only_def)
  show "snd (py_bind m f w) = w"
  proof (cases "m w")
    case (Pair r w')
    with m have "w' = w" by simp
    with Pair assms(2) show ?thesis
      by (cases r) (simp_all add: py_bind_def read_only_def)
  qed
qed

lemma read_only_subscript: "read_only (subscript field key d)"
  by (cases "field d") (simp_all add: subscript_def read_only_return read_only_raise)

lemma read_only_scene_arg: "read_only scene_arg"
  by (simp add: read_only_def scene_arg_def)

lemma read_only_comprehension:
  assumes "\<And>x. read_only (f x)"
  shows "read_only (comprehension f xs)"
  by (induction xs) (simp_all add: read_only_return read_only_bind assms)

lemma read_only_object_line: "read_only (object_line obj)"
  unfolding object_line_def
  by (intro read_only_bind read_only_subscript read_only_return)

lemma read_only_create_curator_prompt: "read_only create_curator_prompt"
  unfolding create_curator_prompt_def Let_def
  by (intro read_only_bind read_only_subscript read_only_return read_only_scene_arg
      read_only_comprehension read_only_object_line)

lemma determined_return: "scene_determined (py_return x)"
  by (simp add: scene_determined_def py_return_def)

lemma determined_raise: "scene_determined (py_raise e)"
  by (simp add: scene_determined_def py_raise_def)

lemma determined_subscript: "scene_determined (subscript field key d)"
  by (cases "field d") (simp_all add: subscript_def determined_return determined_raise)

lemma determined_scene_arg: "scene_determined scene_arg"
  by (simp add: scene_determined_def scene_arg_def)

lemma determined_bind:
  assumes "scene_determined m" and "read_only m"
    and "\<And>x. scene_determined (f x)"
  shows "scene_determined (py_bind m f)"
  unfolding scene_determined_def
proof (intro allI impI)
  fix w w' :: world
  assume eq: "scene w = scene w'"
  have "snd (m w) = w" and "snd (m w') = w'"
    using assms(2) by (simp_all add: read_only_def)
  then obtain r r' where mw: "m w = (r, w)" and mw': "m w' = (r', w')"
    by (metis prod.collapse)
  have "fst (m w) = fst (m w')"
    using assms(1) eq unfolding scene_determined_def by blast
  then have same: "r' = r"
    by (simp add: mw mw')
  show "fst (py_bind m f w) = fst (py_bind m f w')"
  proof (cases r)
    case (Inl e)
    then show ?thesis by (simp add: py_bind_def mw mw' same)
  next
    case (Inr x)
    have "fst (f x w) = fst (f x w')"
      using assms(3) eq unfolding scene_determined_def by blast
    then show ?thesis by (simp add: py_bind_def mw mw' same Inr)
  qed
qed

lemma determined_comprehension:
  assumes "\<And>x. scene_determined (f x)" and "\<And>x. read_only (f x)"
  shows "scene_determined (comprehension f xs)"
proof (induction xs)
  case Nil
  show ?case by (simp add: determined_return)
next
  case (Cons x xs)
  have inner: "scene_determined (py_bind (comprehension f xs) (\<lambda>ys. py_return (y # ys)))" for y
    by (rule determined_bind [OF Cons.IH read_only_comprehension [OF assms(2)] determined_return])
  show ?case
    unfolding comprehension.simps
    by (rule determined_bind [OF assms(1) assms(2) inner])
qed

lemma determined_object_line: "scene_determined (object_line obj)"
  unfolding object_line_def
  by (intro determined_bind determined_subscript read_only_subscript determined_return)

lemma determined_create_curator_prompt: "scene_determined create_curator_prompt"
  unfolding create_curator_prompt_def Let_def
  by (intro determined_bind determined_subscript read_only_subscript determined_return
      determined_scene_arg read_only_scene_arg determined_comprehension
      read_only_comprehension determined_object_line read_only_object_line)

section \<open>The lines of the prompt\<close>

lemma split_nl_nonempty: "split_nl s \<noteq> []"
  by (induction s) (auto split: list.splits)

lemma split_nl_single: "single_line a \<Longrightarrow> split_nl a = [a]"
  by (induction a) (auto simp: single_line_def)

lemma split_nl_append:
  "split_nl (a @ b) = butlast (split_nl a) @ (last (split_nl a) @ hd (split_nl b)) # tl (split_nl b)"
proof (induction a)
  case Nil
  show ?case using split_nl_nonempty [of b] by (cases "split_nl b") simp_all
next
  case (Cons c a)
  show ?case
  proof (cases "c = CHR ''\<newline>''")
    case True
    then show ?thesis using Cons by (simp add: split_nl_nonempty)
  next
    case False
    obtain l ls where a: "split_nl a = l # ls"
      using split_nl_nonempty [of a] by (cases "split_nl a") auto
    show ?thesis
    proof (cases ls)
      case Nil
      with a False Cons show ?thesis by simp
    next
      case (Cons l' ls')
      with a False Cons.IH show ?thesis by simp
    qed
  qed
qed

lemma split_nl_line:
  assumes "single_line a"
  shows "split_nl (a @ CHR ''\<newline>'' # b) = a # split_nl b"
  by (simp add: split_nl_append [of a] split_nl_single [OF assms])

lemma split_nl_joined:
  assumes "list_all single_line ls" and "ls \<noteq> []"
  shows "split_nl (str_join ''\<newline>'' ls @ CHR ''\<newline>'' # b) = ls @ split_nl b"
  using assms
proof (induction "''\<newline>''" ls rule: str_join.induct)
  case 1
  then show ?case by simp
next
  case (2 x)
  then show ?case by (simp add: split_nl_line)
next
  case (3 x y ys)
  then show ?case by (simp add: split_nl_line)
qed


lemma single_line_append [simp]: "single_line (a @ b) = (single_line a \<and> single_line b)"
  by (auto simp: single_line_def)

lemma single_line_comma_join:
  assumes "list_all single_line ts"
  shows "single_line (str_join '', '' ts)"
  using assms
proof (induction "'', ''" ts rule: str_join.induct)
  case 1
  show ?case by (simp add: single_line_def)
next
  case (2 x)
  then show ?case by simp
next
  case (3 x y ys)
  then show ?case by (simp add: single_line_def)
qed

lemma single_line_object_text:
  assumes "object_single_line obj"
  shows "single_line (object_text obj)"
  using assms single_line_comma_join [of "the (obj_tags obj)"]
  by (simp add: object_single_line_def object_text_def entry_text_def)
    (simp add: single_line_def)

lemma single_line_entries:
  assumes "list_all object_single_line objs"
  shows "list_all single_line (map object_text objs)"
  using assms by (induction objs) (simp_all add: single_line_object_text)

lemma join_indented:
  "''    '' @ str_join ''\<newline>'' (e # es) = str_join ''\<newline>'' ((''    '' @ e) # es)"
  by (cases es) simp_all

lemma tail_starts_with_newline: "template_tail = CHR ''\<newline>'' # tl template_tail"
  by (simp add: template_tail_def)

lemma block_then_tail:
  assumes "list_all single_line entries"
  shows "split_nl (''    '' @ str_join ''\<newline>'' entries @ template_tail) =
           block_lines entries @ split_nl (tl template_tail)"
proof (cases entries)
  case Nil
  have "split_nl (''    '' @ CHR ''\<newline>'' # tl template_tail) = ''    '' # split_nl (tl template_tail)"
    by (rule split_nl_line) (simp add: single_line_def)
  with Nil show ?thesis
    using tail_starts_with_newline by (simp add: block_lines_def)
next
  case (Cons e es)
  have sl: "list_all single_line ((''    '' @ e) # es)"
    using assms Cons by (simp add: single_line_def)
  have "''    '' @ str_join ''\<newline>'' entries @ template_tail =
          str_join ''\<newline>'' ((''    '' @ e) # es) @ CHR ''\<newline>'' # tl template_tail"
    using join_indented [of e es] tail_starts_with_newline Cons
    by (metis append.assoc)
  then show ?thesis
    using split_nl_joined [OF sl, of "tl template_tail"] Cons by (simp add: block_lines_def)
qed

lemma prompt_lines:
  assumes "single_line n" "single_line s" "single_line t" "single_line src"
    and "list_all single_line entries"
  shows "split_nl (prompt_template n s t src (str_join ''\<newline>'' entries)) =
           butlast (split_nl template_head) @
           [last (split_nl template_head) @ n,
            ''    - Dominant Style: '' @ s,
            ''    - Lighting Conditions: '' @ t @ '' from '' @ src,
            ''    - Objects in Scene:''] @
           block_lines entries @ split_nl (tl template_tail)"
proof -
  let ?blk = "''    '' @ str_join ''\<newline>'' entries @ template_tail"
  let ?l4 = "''    - Objects in Scene:''"
  let ?l3 = "''    - Lighting Conditions: '' @ t @ '' from '' @ src"
  let ?l2 = "''    - Dominant Style: '' @ s"
  have 4: "split_nl (?l4 @ CHR ''\<newline>'' # ?blk) = ?l4 # split_nl ?blk"
    by (rule split_nl_line) (simp add: single_line_def)
  have 3: "split_nl (?l3 @ CHR ''\<newline>'' # ?l4 @ CHR ''\<newline>'' # ?blk)
             = ?l3 # split_nl (?l4 @ CHR ''\<newline>'' # ?blk)"
    by (rule split_nl_line) (use assms in \<open>simp add: single_line_def\<close>)
  have 2: "split_nl (?l2 @ CHR ''\<newline>'' # ?l3 @ CHR ''\<newline>'' # ?l4 @ CHR ''\<newline>'' # ?blk)
             = ?l2 # split_nl (?l3 @ CHR ''\<newline>'' # ?l4 @ CHR ''\<newline>'' # ?blk)"
    by (rule split_nl_line) (use assms in \<open>simp add: single_line_def\<close>)
  have 1: "split_nl (n @ CHR ''\<newline>'' # ?l2 @ CHR ''\<newline>'' # ?l3 @ CHR ''\<newline>'' # ?l4 @ CHR ''\<newline>'' # ?blk)
             = n # split_nl (?l2 @ CHR ''\<newline>'' # ?l3 @ CHR ''\<newline>'' # ?l4 @ CHR ''\<newline>'' # ?blk)"
    by (rule split_nl_line) (rule assms(1))
  have shape: "prompt_template n s t src (str_join ''\<newline>'' entries) =
      template_head @ (n @ CHR ''\<newline>'' # ?l2 @ CHR ''\<newline>'' # ?l3 @ CHR ''\<newline>'' # ?l4 @ CHR ''\<newline>'' # ?blk)"
    by (simp add: prompt_template_def)
  show ?thesis
    unfolding shape split_nl_append [of template_head] 1 2 3 4 block_then_tail [OF assms(5)]
    by simp
qed


lemma head_last_line: "last (split_nl template_head) = ''    - Scene Name: ''"
  by code_simp

lemma head_no_dash: "filter (prefix ''- '') (butlast (split_nl template_head)) = []"
  by code_simp

lemma tail_no_dash: "filter (prefix ''- '') (split_nl (tl template_tail)) = []"
  by code_simp

lemma head_no_indented_dash:
  "filter (\<lambda>l. prefix ''- '' (dropWhile (\<lambda>c. c = CHR '' '') l)) (butlast (split_nl template_head)) = []"
  by code_simp

lemma tail_indented_dash:
  "length (filter (\<lambda>l. prefix ''- '' (dropWhile (\<lambda>c. c = CHR '' '') l)) (split_nl (tl template_tail))) = 4"
  by code_simp

lemma entry_starts_with_dash: "prefix ''- '' (object_text obj)"
  by (simp add: object_text_def entry_text_def)

lemma block_dash_lines:
  "filter (prefix ''- '') (block_lines (map object_text objs)) = map object_text (tl objs)"
proof (cases objs)
  case Nil
  then show ?thesis by (simp add: block_lines_def)
next
  case (Cons obj rest)
  have "filter (prefix ''- '') (map object_text rest) = map object_text rest"
    by (rule filter_True) (auto simp: entry_starts_with_dash)
  with Cons show ?thesis by (simp add: block_lines_def)
qed

lemma block_indented_dash_lines:
  "length (filter (\<lambda>l. prefix ''- '' (dropWhile (\<lambda>c. c = CHR '' '') l))
             (block_lines (map object_text objs))) = length objs"
proof (cases objs)
  case Nil
  then show ?thesis by (simp add: block_lines_def)
next
  case (Cons obj rest)
  have skip: "dropWhile (\<lambda>c. c = CHR '' '') (object_text x) = object_text x" for x
    by (simp add: object_text_def entry_text_def)
  have "filter (\<lambda>l. prefix ''- '' (dropWhile (\<lambda>c. c = CHR '' '') l)) (map object_text rest)
          = map object_text rest"
    by (rule filter_True) (auto simp: skip entry_starts_with_dash)
  with Cons show ?thesis
    by (simp add: block_lines_def skip entry_starts_with_dash)
qed

lemma dash_lines_of_prompt:
  assumes "scene_single_line sc"
  shows "dash_lines (prompt_with sc (str_join ''\<newline>'' (map object_text (scene_objects sc))))
           = length (scene_objects sc) - 1"
proof -
  have entries: "list_all single_line (map object_text (scene_objects sc))"
    using assms by (simp add: scene_single_line_def single_line_entries)
  show ?thesis
    using assms
    by (simp add: dash_lines_def prompt_with_def scene_single_line_def prompt_lines [OF _ _ _ _ entries]
        head_no_dash tail_no_dash head_last_line block_dash_lines)
qed

lemma indented_dash_lines_of_prompt:
  assumes "scene_single_line sc"
  shows "indented_dash_lines (prompt_with sc (str_join ''\<newline>'' (map object_text (scene_objects sc))))
           = length (scene_objects sc) + 8"
proof -
  have entries: "list_all single_line (map object_text (scene_objects sc))"
    using assms by (simp add: scene_single_line_def single_line_entries)
  show ?thesis
    using assms
    by (simp add: indented_dash_lines_def prompt_with_def scene_single_line_def
        prompt_lines [OF _ _ _ _ entries] head_no_indented_dash tail_indented_dash head_last_line
        block_indented_dash_lines)
qed

lemma scene_data_single_line: "scene_single_line scene_data"
  by (simp add: scene_single_line_def scene_data_def scene_objects_def object_single_line_def
      single_line_def)

section \<open>Decoding what was encoded\<close>

lemma hex_digit_value: "k < 16 \<Longrightarrow> hex_value (hex_digit k) = Some k"
proof -
  assume "k < 16"
  then have "k \<in> {0, 1, 2, 3, 4, 5, 6, 7, 8, 9, 10, 11, 12, 13, 14, 15}"
    by simp arith
  then show ?thesis
    by (auto simp: hex_value_def hex_digit_def)
qed

lemma of_char_bound: "(of_char c :: nat) < 256"
  by (cases c) simp

lemma scanstring_escape_char:
  "scanstring acc (escape_char c @ r) = scanstring (c # acc) r"
proof -
  let ?n = "of_char c :: nat"
  consider (special) "c \<in> set [CHR 0x22, CHR 0x5C, CHR 0x0A, CHR 0x0D, CHR 0x09, CHR 0x08, CHR 0x0C]"
    | (unicode) "c \<notin> set [CHR 0x22, CHR 0x5C, CHR 0x0A, CHR 0x0D, CHR 0x09, CHR 0x08, CHR 0x0C]"
        "?n < 0x20 \<or> 0x7E < ?n"
    | (plain) "c \<notin> set [CHR 0x22, CHR 0x5C, CHR 0x0A, CHR 0x0D, CHR 0x09, CHR 0x08, CHR 0x0C]"
        "\<not> (?n < 0x20 \<or> 0x7E < ?n)"
    by blast
  then show ?thesis
  proof cases
    case special
    then show ?thesis
      by (auto simp: escape_char_def backslash_def)
  next
    case unicode
    have hi: "hex_value (hex_digit (?n div 16)) = Some (?n div 16)"
      using of_char_bound [of c] by (intro hex_digit_value) arith
    have lo: "hex_value (hex_digit (?n mod 16)) = Some (?n mod 16)"
      by (intro hex_digit_value) simp
    have zero: "hex_value CHR ''0'' = Some 0"
      by (simp add: hex_value_def)
    have same: "char_of (?n div 16 * 16 + ?n mod 16) = c"
      by simp
    have small: "?n div 16 * 16 + ?n mod 16 < 256"
      using of_char_bound [of c] by simp
    have esc: "escape_char c = [CHR 0x5C, CHR ''u'', CHR ''0'', CHR ''0'',
              hex_digit (?n div 16), hex_digit (?n mod 16)]"
      using unicode by (simp add: escape_char_def)
    show ?thesis
      unfolding esc using small same by (simp add: hi lo zero)
  next
    case plain
    then show ?thesis
      by (simp add: escape_char_def)
  qed
qed

lemma scanstring_escape_string:
  \<open>scanstring acc (escape_string s @ CHR ''"'' # rest) = Inr (rev acc @ s, rest)\<close>
proof (induction s arbitrary: acc)
  case Nil
  show ?case by (simp add: escape_string_def)
next
  case (Cons c s)
  have "escape_string (c # s) @ CHR 0x22 # rest = escape_char c @ (escape_string s @ CHR 0x22 # rest)"
    by (simp add: escape_string_def)
  then show ?case
    by (simp add: scanstring_escape_char Cons.IH)
qed


lemma newline_indent_2:
  "newline_indent 2 0 = ''\<newline>''"
  "newline_indent 2 (Suc 0) = ''\<newline>  ''"
  "newline_indent 2 (Suc (Suc 0)) = ''\<newline>    ''"
  by (simp_all add: newline_indent_def numeral_eq_Suc)

lemma content_roundtrip:
  "json_loads (json_dumps (JObject [(''title'', JString t), (''narrative'', JString n),
       (''design_suggestions'', JArray [JString s1, JString s2, JString s3])]) 2)
   = Inr (JObject [(''title'', JString t), (''narrative'', JString n),
       (''design_suggestions'', JArray [JString s1, JString s2, JString s3])])"
  by (simp add: json_loads_def json_dumps_def encode_basestring_ascii_def newline_indent_2
      scanstring_escape_string skip_ws_def is_ws_def)

section \<open>The decoder never runs out of fuel\<close>

text \<open>
  Every step of the string scanner, and every call of the value scanner or of a loop that
  returns, leaves less text than it was given; so the fuel of \<open>json_loads\<close> is never
  used up, also on text that is not JSON.
\<close>

lemma scanstring_cases:
  assumes "scanstring acc s = r"
  obtains
    (empty) "s = []" "r = Inl JSONDecodeError"
  | (quote) s' where "s = CHR 0x22 # s'" "r = Inr (rev acc, s')"
  | (step) n acc' s' where "length s = Suc (n + length s')" "r = scanstring acc' s'"
  | (error) e where "r = Inl e" "e \<noteq> OutOfFuel"
proof (cases s)
  case Nil
  with assms empty show ?thesis by simp
next
  case (Cons c t)
  show ?thesis
  proof (cases "c = CHR 0x22")
    case True
    with Cons assms quote show ?thesis by simp
  next
    case nq: False
    show ?thesis
    proof (cases "c = CHR 0x5C")
      case False
      show ?thesis
      proof (cases "of_char c < (0x20 :: nat)")
        case True
        with False nq Cons assms error [of JSONDecodeError] show ?thesis by simp
      next
        case plain: False
        with False nq Cons assms step [of 0 t "c # acc"] show ?thesis by simp
      qed
    next
      case True
      show ?thesis
      proof (cases t)
        case Nil
        with True nq Cons assms error [of JSONDecodeError] show ?thesis by simp
      next
        case t: (Cons esc s1)
        show ?thesis
        proof (cases "esc = CHR ''u''")
          case False
          show ?thesis
          proof (cases "backslash esc")
            case None
            with False t True nq Cons assms error [of JSONDecodeError] show ?thesis by simp
          next
            case (Some ch)
            with False t True nq Cons assms step [of 1 s1 "ch # acc"] show ?thesis by simp
          qed
        next
          case u: True
          have r: "r = (case s1 of
                  h1 # h2 # h3 # h4 # s2 \<Rightarrow>
                    (case (hex_value h1, hex_value h2, hex_value h3, hex_value h4) of
                       (Some d1, Some d2, Some d3, Some d4) \<Rightarrow>
                         (let uni = ((d1 * 16 + d2) * 16 + d3) * 16 + d4
                          in if uni < 256 then scanstring (char_of uni # acc) s2
                             else Inl NotModelled)
                     | _ \<Rightarrow> Inl JSONDecodeError)
                | _ \<Rightarrow> Inl JSONDecodeError)"
            using u t True nq Cons assms by simp
          show ?thesis
          proof (cases "\<exists>h1 h2 h3 h4 s2. s1 = h1 # h2 # h3 # h4 # s2")
            case False
            then have "r = Inl JSONDecodeError"
              unfolding r by (auto split: list.splits)
            with error [of JSONDecodeError] show ?thesis by simp
          next
            case True
            then obtain h1 h2 h3 h4 s2 where s1: "s1 = h1 # h2 # h3 # h4 # s2"
              by blast
            show ?thesis
            proof (cases "\<exists>d1 d2 d3 d4. hex_value h1 = Some d1 \<and> hex_value h2 = Some d2
                \<and> hex_value h3 = Some d3 \<and> hex_value h4 = Some d4")
              case False
              then have "r = Inl JSONDecodeError"
                unfolding r s1 by (auto split: option.splits)
              with error [of JSONDecodeError] show ?thesis by simp
            next
              case True
              then obtain d1 d2 d3 d4 where d: "hex_value h1 = Some d1" "hex_value h2 = Some d2"
                "hex_value h3 = Some d3" "hex_value h4 = Some d4"
                by blast
              let ?uni = "((d1 * 16 + d2) * 16 + d3) * 16 + d4"
              show ?thesis
              proof (cases "?uni < 256")
                case False
                then have "r = Inl NotModelled"
                  unfolding r s1 by (simp add: d)
                with error [of NotModelled] show ?thesis by simp
              next
                case True
                then have "r = scanstring (char_of ?uni # acc) s2"
                  unfolding r s1 by (simp add: d)
                moreover have "length s = Suc (5 + length s2)"
                  by (simp add: Cons t s1)
                ultimately show ?thesis
                  using step [of 5 s2 "char_of ?uni # acc"] by simp
              qed
            qed
          qed
        qed
      qed
    qed
  qed
qed

lemma scanstring_shorter: "scanstring acc s = Inr (str, rest) \<Longrightarrow> length rest < length s"
proof (induction "length s" arbitrary: acc s rule: less_induct)
  case less
  show ?case
  proof (rule scanstring_cases [where acc = acc and s = s, OF refl])
    assume "scanstring acc s = Inl JSONDecodeError"
    with less.prems show ?thesis by simp
  next
    fix s' assume "s = CHR 0x22 # s'" "scanstring acc s = Inr (rev acc, s')"
    with less.prems show ?thesis by simp
  next
    fix n acc' s'
    assume len: "length s = Suc (n + length s')" and "scanstring acc s = scanstring acc' s'"
    then have "scanstring acc' s' = Inr (str, rest)" and "length s' < length s"
      using less.prems by simp_all
    with less.hyps [of s' acc'] len show ?thesis by simp
  next
    fix e assume "scanstring acc s = Inl e"
    with less.prems show ?thesis by simp
  qed
qed

lemma scanstring_fuel: "scanstring acc s \<noteq> Inl OutOfFuel"
proof (induction "length s" arbitrary: acc s rule: less_induct)
  case less
  show ?case
  proof (rule scanstring_cases [where acc = acc and s = s, OF refl])
    assume "scanstring acc s = Inl JSONDecodeError"
    then show ?thesis by simp
  next
    fix s' assume "scanstring acc s = Inr (rev acc, s')"
    then show ?thesis by simp
  next
    fix n acc' s'
    assume "length s = Suc (n + length s')" and "scanstring acc s = scanstring acc' s'"
    with less.hyps [of s' acc'] show ?thesis by simp
  next
    fix e assume "scanstring acc s = Inl e" "e \<noteq> OutOfFuel"
    then show ?thesis by simp
  qed
qed


lemma skip_ws_shorter: "skip_ws s = c # r \<Longrightarrow> length r < length s"
proof -
  assume "skip_ws s = c # r"
  then have "length (c # r) \<le> length s"
    unfolding skip_ws_def by (metis length_dropWhile_le)
  then show ?thesis by simp
qed

lemma skip_ws_le: "length (skip_ws s) \<le> length s"
  by (simp add: skip_ws_def length_dropWhile_le)

lemma scan_shorter:
  "(\<forall>s v rest. scan_once fuel s = Inr (v, rest) \<longrightarrow> length rest < length s) \<and>
   (\<forall>vals s v rest. array_loop fuel vals s = Inr (v, rest) \<longrightarrow> length rest < length s) \<and>
   (\<forall>pairs s v rest. object_loop fuel pairs s = Inr (v, rest) \<longrightarrow> length rest < length s)"
proof (induction fuel)
  case 0
  show ?case by simp
next
  case (Suc fuel)
  then have scanIH: "\<And>s v rest. scan_once fuel s = Inr (v, rest) \<Longrightarrow> length rest < length s"
    and arrIH: "\<And>vals s v rest. array_loop fuel vals s = Inr (v, rest) \<Longrightarrow> length rest < length s"
    and objIH: "\<And>pairs s v rest. object_loop fuel pairs s = Inr (v, rest) \<Longrightarrow> length rest < length s"
    by blast+
  have 1: "length rest < length s" if "scan_once (Suc fuel) s = Inr (v, rest)" for s v rest
  proof (cases s)
    case Nil
    with that show ?thesis by simp
  next
    case (Cons c r)
    consider (str) "c = CHR 0x22" | (obj) "c = CHR ''{''" | (arr) "c = CHR ''[''"
      | (other) "c \<noteq> CHR 0x22" "c \<noteq> CHR ''{''" "c \<noteq> CHR ''[''"
      by blast
    then show ?thesis
    proof cases
      case str
      with that Cons obtain x where "scanstring [] r = Inr (x, rest)"
        by (auto split: sum.splits)
      from scanstring_shorter [OF this] Cons show ?thesis by simp
    next
      case obj
      with that Cons obtain c1 r1 where ws: "skip_ws r = c1 # r1"
        by (auto split: list.splits)
      note short = skip_ws_shorter [OF ws]
      from that Cons obj ws consider "c1 = CHR 0x22" "object_loop fuel [] r1 = Inr (v, rest)"
        | "rest = r1"
        by (auto split: if_splits)
      then show ?thesis
      proof cases
        case 1
        from objIH [OF 1(2)] short Cons show ?thesis by simp
      next
        case 2
        with short Cons show ?thesis by simp
      qed
    next
      case arr
      with that Cons obtain c1 r1 where ws: "skip_ws r = c1 # r1"
        by (auto split: list.splits)
      from that Cons arr ws consider "rest = r1"
        | "array_loop fuel [] (c1 # r1) = Inr (v, rest)"
        by (auto split: if_splits)
      then show ?thesis
      proof cases
        case 1
        with skip_ws_shorter [OF ws] Cons show ?thesis by simp
      next
        case 2
        from arrIH [OF 2] skip_ws_le [of r] ws Cons show ?thesis by simp
      qed
    next
      case other
      with that Cons show ?thesis by (simp split: if_splits)
    qed
  qed
  have 2: "length rest < length s" if "array_loop (Suc fuel) vals s = Inr (v, rest)" for vals s v rest
  proof -
    from that obtain x rest0 where v: "scan_once fuel s = Inr (x, rest0)"
      by (auto split: sum.splits)
    with that obtain c r where ws: "skip_ws rest0 = c # r"
      by (auto split: list.splits)
    from that v ws consider "rest = r"
      | "array_loop fuel (vals @ [x]) (skip_ws r) = Inr (v, rest)"
      by (auto split: if_splits)
    then show ?thesis
    proof cases
      case 1
      with skip_ws_shorter [OF ws] scanIH [OF v] show ?thesis by simp
    next
      case 2
      from arrIH [OF 2] skip_ws_le [of r] skip_ws_shorter [OF ws] scanIH [OF v] show ?thesis by simp
    qed
  qed
  have 3: "length rest < length s" if "object_loop (Suc fuel) pairs s = Inr (v, rest)" for pairs s v rest
  proof -
    from that obtain key rest0 where k: "scanstring [] s = Inr (key, rest0)"
      by (auto split: sum.splits)
    with that obtain c r where ws: "skip_ws rest0 = c # r"
      by (auto split: list.splits)
    from that k ws have colon: "c = CHR '':''"
      by (auto split: if_splits)
    with that k ws obtain x rest1 where x: "scan_once fuel (skip_ws r) = Inr (x, rest1)"
      by (auto split: sum.splits)
    with that k ws colon obtain c2 r2 where ws2: "skip_ws rest1 = c2 # r2"
      by (auto split: list.splits)
    have bound: "length r2 < length s"
      using skip_ws_shorter [OF ws2] scanIH [OF x] skip_ws_le [of r] skip_ws_shorter [OF ws]
        scanstring_shorter [OF k] by simp
    from that k ws colon x ws2 consider "rest = r2"
      | c3 r3 where "skip_ws r2 = c3 # r3" "object_loop fuel (AList.update key x pairs) r3 = Inr (v, rest)"
      by (auto split: if_splits list.splits)
    then show ?thesis
    proof cases
      case 1
      with bound show ?thesis by simp
    next
      case 2
      from objIH [OF 2(2)] skip_ws_shorter [OF 2(1)] bound show ?thesis by simp
    qed
  qed
  from 1 2 3 show ?case by blast
qed


lemmas scan_once_shorter = scan_shorter [THEN conjunct1, rule_format]

lemma scan_fuel:
  "(\<forall>s. 2 * length s < fuel \<longrightarrow> scan_once fuel s \<noteq> Inl OutOfFuel) \<and>
   (\<forall>vals s. 2 * length s + 1 < fuel \<longrightarrow> array_loop fuel vals s \<noteq> Inl OutOfFuel) \<and>
   (\<forall>pairs s. 2 * length s < fuel \<longrightarrow> object_loop fuel pairs s \<noteq> Inl OutOfFuel)"
proof (induction fuel)
  case 0
  show ?case by simp
next
  case (Suc fuel)
  then have scanIH: "\<And>s. 2 * length s < fuel \<Longrightarrow> scan_once fuel s \<noteq> Inl OutOfFuel"
    and arrIH: "\<And>vals s. 2 * length s + 1 < fuel \<Longrightarrow> array_loop fuel vals s \<noteq> Inl OutOfFuel"
    and objIH: "\<And>pairs s. 2 * length s < fuel \<Longrightarrow> object_loop fuel pairs s \<noteq> Inl OutOfFuel"
    by blast+
  have 1: "scan_once (Suc fuel) s \<noteq> Inl OutOfFuel" if enough: "2 * length s < Suc fuel" for s
  proof
    assume out: "scan_once (Suc fuel) s = Inl OutOfFuel"
    then obtain c r where s: "s = c # r"
      by (cases s) simp_all
    consider (string) "c = CHR 0x22" | (object) "c = CHR ''{''" | (array) "c = CHR ''[''"
      | (other) "c \<noteq> CHR 0x22" "c \<noteq> CHR ''{''" "c \<noteq> CHR ''[''"
      by blast
    then show False
    proof cases
      case string
      with out s have "scanstring [] r = Inl OutOfFuel"
        by (auto split: sum.splits)
      with scanstring_fuel show False by blast
    next
      case object
      with out s obtain c1 r1 where ws: "skip_ws r = c1 # r1"
        by (auto split: list.splits)
      with out s object have "object_loop fuel [] r1 = Inl OutOfFuel"
        by (auto split: if_splits)
      moreover have "2 * length r1 < fuel"
        using skip_ws_shorter [OF ws] enough s by simp
      ultimately show False
        using objIH by blast
    next
      case array
      with out s obtain c1 r1 where ws: "skip_ws r = c1 # r1"
        by (auto split: list.splits)
      with out s array have "array_loop fuel [] (c1 # r1) = Inl OutOfFuel"
        by (auto split: if_splits)
      moreover have "2 * length (c1 # r1) + 1 < fuel"
        using skip_ws_le [of r] ws enough s by simp
      ultimately show False
        using arrIH by blast
    next
      case other
      with out s show False by (simp split: if_splits)
    qed
  qed
  have 2: "array_loop (Suc fuel) vals s \<noteq> Inl OutOfFuel" if enough: "2 * length s + 1 < Suc fuel" for vals s
  proof
    assume out: "array_loop (Suc fuel) vals s = Inl OutOfFuel"
    have "scan_once fuel s \<noteq> Inl OutOfFuel"
      using scanIH enough by simp
    with out obtain x rest0 where v: "scan_once fuel s = Inr (x, rest0)"
      by (auto split: sum.splits)
    with out obtain c r where ws: "skip_ws rest0 = c # r"
      by (auto split: list.splits)
    from out v ws have "array_loop fuel (vals @ [x]) (skip_ws r) = Inl OutOfFuel"
      by (auto split: if_splits)
    moreover have "2 * length (skip_ws r) + 1 < fuel"
      using skip_ws_le [of r] skip_ws_shorter [OF ws] scan_once_shorter [OF v] enough by simp
    ultimately show False
      using arrIH by blast
  qed
  have 3: "object_loop (Suc fuel) pairs s \<noteq> Inl OutOfFuel" if enough: "2 * length s < Suc fuel" for pairs s
  proof
    assume out: "object_loop (Suc fuel) pairs s = Inl OutOfFuel"
    with scanstring_fuel [of "[]" s] obtain key rest0 where k: "scanstring [] s = Inr (key, rest0)"
      by (auto split: sum.splits)
    with out obtain c r where ws: "skip_ws rest0 = c # r"
      by (auto split: list.splits)
    from out k ws have colon: "c = CHR '':''"
      by (auto split: if_splits)
    have len_r: "length (skip_ws r) + 2 \<le> length s"
      using skip_ws_le [of r] skip_ws_shorter [OF ws] scanstring_shorter [OF k] by simp
    then have "scan_once fuel (skip_ws r) \<noteq> Inl OutOfFuel"
      using scanIH [of "skip_ws r"] enough by simp
    with out k ws colon obtain x rest1 where x: "scan_once fuel (skip_ws r) = Inr (x, rest1)"
      by (auto split: sum.splits)
    with out k ws colon obtain c2 r2 where ws2: "skip_ws rest1 = c2 # r2"
      by (auto split: list.splits)
    from out k ws colon x ws2 obtain c3 r3 where ws3: "skip_ws r2 = c3 # r3"
      and loop: "object_loop fuel (AList.update key x pairs) r3 = Inl OutOfFuel"
      by (auto split: if_splits list.splits)
    have "2 * length r3 < fuel"
      using skip_ws_shorter [OF ws3] skip_ws_shorter [OF ws2] scan_once_shorter [OF x] len_r enough
      by simp
    with loop objIH show False by blast
  qed
  from 1 2 3 show ?case by blast
qed

lemma json_loads_fuel: "json_loads s \<noteq> Inl OutOfFuel"
proof -
  have "2 * length (skip_ws s) < Suc (length s + length s)"
    using skip_ws_le [of s] by simp
  then have "scan_once (Suc (length s + length s)) (skip_ws s) \<noteq> Inl OutOfFuel"
    using scan_fuel [of "Suc (length s + length s)"] by blast
  then show ?thesis
    by (auto simp: json_loads_def split: sum.splits)
qed

lemma unclosed_brackets: "json_loads ''[[['' = Inl JSONDecodeError"
  by (simp add: json_loads_def skip_ws_def is_ws_def)

section \<open>Properties of the prompt composer\<close>

lemma empty_world_conforms: "conforms (scene empty_world)"
  by (simp add: empty_world_def conforms_def scene_data_def)

lemma tail_in_prompt: "suffix template_tail (prompt_template n s t src blk)"
  unfolding prompt_template_def by (intro suffix_appendI) simp

lemma sublist_of_suffix: "sublist xs ys \<Longrightarrow> suffix ys zs \<Longrightarrow> sublist xs zs"
  by (metis append.assoc sublist_def suffix_def)

lemma str_join_concat:
  "str_join sep ls = (case ls of [] \<Rightarrow> [] | l # rest \<Rightarrow> l @ concat (map (\<lambda>x. sep @ x) rest))"
  by (induction sep ls rule: str_join.induct) simp_all

lemma tail_starts_with_task:
  "\<exists>post. template_tail = ''\<newline>\<newline>    **Task & Output Structure:**'' @ post"
  by (simp add: template_tail_def)

text \<open>
  C1. For a scene with all fields present, the returned string contains, between the line
  \<open>- Objects in Scene:\<close> with the four blanks that follow it and the blank line before
  the task block, exactly this text: for each object of the input, in the order of the
  input and with nothing left out or merged, the entry
  \<open>- name: Made of material. Positioned at: position. Tags: t1, t2.\<close>, whose tags are
  separated by a comma and a blank and followed by a full stop; and between two entries
  that follow each other, one newline. The entries and the way they are joined are written
  out in the statement with the list functions of HOL only.
\<close>

theorem compose_object_lines:
  assumes "conforms (scene w)"
  shows "\<exists>lines pre post.
           lines =
             map (\<lambda>obj. ''- '' @ the (obj_name obj) @ '': Made of '' @ the (obj_material obj)
                  @ ''. Positioned at: '' @ the (obj_position obj) @ ''. Tags: ''
                  @ (case the (obj_tags obj) of [] \<Rightarrow> [] | t # ts \<Rightarrow> t @ concat (map (\<lambda>x. '', '' @ x) ts))
                  @ ''.'')
               (the (objects (scene w))) \<and>
           length lines = length (the (objects (scene w))) \<and>
           fst (create_curator_prompt w) =
             Inr (pre @ ''    - Objects in Scene:\<newline>    ''
                  @ (case lines of [] \<Rightarrow> [] | l # rest \<Rightarrow> l @ concat (map (\<lambda>x. ''\<newline>'' @ x) rest))
                  @ ''\<newline>\<newline>    **Task & Output Structure:**'' @ post)"
proof -
  let ?objs = "the (objects (scene w))"
  let ?lines = "map (\<lambda>obj. ''- '' @ the (obj_name obj) @ '': Made of '' @ the (obj_material obj)
                  @ ''. Positioned at: '' @ the (obj_position obj) @ ''. Tags: ''
                  @ (case the (obj_tags obj) of [] \<Rightarrow> [] | t # ts \<Rightarrow> t @ concat (map (\<lambda>x. '', '' @ x) ts))
                  @ ''.'') ?objs"
  let ?pre = "template_head @ the (scene_name (scene w)) @ ''\<newline>    - Dominant Style: ''
      @ the (overall_style (scene w)) @ ''\<newline>    - Lighting Conditions: ''
      @ the (light_type (the (lighting (scene w)))) @ '' from ''
      @ the (light_source (the (lighting (scene w)))) @ ''\<newline>''"
  obtain post where post: "template_tail = ''\<newline>\<newline>    **Task & Output Structure:**'' @ post"
    using tail_starts_with_task by blast
  have entries: "map object_text (scene_objects (scene w)) = ?lines"
    by (simp add: object_text_def entry_text_def scene_objects_def str_join_concat)
  have "fst (create_curator_prompt w) =
          Inr (prompt_with (scene w) (str_join ''\<newline>'' ?lines))"
    by (simp add: create_curator_prompt_ok [OF assms] entries)
  also have "prompt_with (scene w) (str_join ''\<newline>'' ?lines) =
      ?pre @ ''    - Objects in Scene:\<newline>    ''
      @ (case ?lines of [] \<Rightarrow> [] | l # rest \<Rightarrow> l @ concat (map (\<lambda>x. ''\<newline>'' @ x) rest))
      @ ''\<newline>\<newline>    **Task & Output Structure:**'' @ post"
    unfolding str_join_concat [of "''\<newline>''"] prompt_with_def prompt_template_def
    by (simp add: post)
  finally show ?thesis
    by (intro exI [of _ ?lines] exI [of _ ?pre] exI [of _ post]) simp
qed

theorem compose_object_lines_witness:
  "conforms (scene loft_world) \<and>
   length (the (objects (scene loft_world))) = 5 \<and>
   (\<exists>pre post.
      fst (create_curator_prompt loft_world) =
        Inr (pre @
           ''    - Objects in Scene:\<newline>'' @
           ''    - Leather Sofa: Made of Distressed brown leather. Positioned at: Center of the room, facing the windows. Tags: seating, main furniture, comfortable.\<newline>'' @
           ''- Concrete Coffee Table: Made of Polished concrete with steel legs. Positioned at: In front of the leather sofa. Tags: table, centerpiece, functional.\<newline>'' @
           ''- Fiddle Leaf Fig: Made of Green leaves, terracotta pot. Positioned at: In the corner, near the windows. Tags: plant, organic, decoration, life.\<newline>'' @
           ''- Arc Floor Lamp: Made of Brushed nickel. Positioned at: Arching over the sofa from behind. Tags: lighting, modern, accent.\<newline>'' @
           ''- Abstract Painting: Made of Canvas with bold blue and yellow strokes. Positioned at: On the exposed brick wall behind the sofa. Tags: art, wall decor, color accent.\<newline>'' @
           ''\<newline>    **Task & Output Structure:**'' @ post))"
proof -
  obtain lines pre post where lines:
      "lines =
         map (\<lambda>obj. ''- '' @ the (obj_name obj) @ '': Made of '' @ the (obj_material obj)
                  @ ''. Positioned at: '' @ the (obj_position obj) @ ''. Tags: ''
                  @ (case the (obj_tags obj) of [] \<Rightarrow> [] | t # ts \<Rightarrow> t @ concat (map (\<lambda>x. '', '' @ x) ts))
                  @ ''.'')
           (the (objects (scene loft_world)))"
    and run: "fst (create_curator_prompt loft_world) =
             Inr (pre @ ''    - Objects in Scene:\<newline>    ''
                  @ (case lines of [] \<Rightarrow> [] | l # rest \<Rightarrow> l @ concat (map (\<lambda>x. ''\<newline>'' @ x) rest))
                  @ ''\<newline>\<newline>    **Task & Output Structure:**'' @ post)"
    using compose_object_lines [OF loft_world_conforms] by blast
  have "fst (create_curator_prompt loft_world) =
        Inr (pre @
           ''    - Objects in Scene:\<newline>'' @
           ''    - Leather Sofa: Made of Distressed brown leather. Positioned at: Center of the room, facing the windows. Tags: seating, main furniture, comfortable.\<newline>'' @
           ''- Concrete Coffee Table: Made of Polished concrete with steel legs. Positioned at: In front of the leather sofa. Tags: table, centerpiece, functional.\<newline>'' @
           ''- Fiddle Leaf Fig: Made of Green leaves, terracotta pot. Positioned at: In the corner, near the windows. Tags: plant, organic, decoration, life.\<newline>'' @
           ''- Arc Floor Lamp: Made of Brushed nickel. Positioned at: Arching over the sofa from behind. Tags: lighting, modern, accent.\<newline>'' @
           ''- Abstract Painting: Made of Canvas with bold blue and yellow strokes. Positioned at: On the exposed brick wall behind the sofa. Tags: art, wall decor, color accent.\<newline>'' @
           ''\<newline>    **Task & Output Structure:**'' @ post)"
    unfolding run lines by (simp add: loft_world_def scene_data_def)
  moreover have "length (the (objects (scene loft_world))) = 5"
    by (simp add: loft_world_def scene_data_def)
  ultimately show ?thesis
    using loft_world_conforms by blast
qed


text \<open>
  C4. With an empty object list (and the other fields present) the composer returns
  normally; the object block is the empty string, so the indentation that precedes the
  block is followed at once by the text after it, and the rest of the template is the same.
\<close>

theorem compose_empty_scene:
  assumes "conforms (scene w)" and "objects (scene w) = Some []"
  shows "create_curator_prompt w = (Inr (prompt_with (scene w) ''''), w) \<and>
         suffix (''    - Objects in Scene:\<newline>    '' @ template_tail) (prompt_with (scene w) '''')"
proof
  show "create_curator_prompt w = (Inr (prompt_with (scene w) ''''), w)"
    using create_curator_prompt_ok [OF assms(1)] assms(2) by (simp add: scene_objects_def)
  have "\<exists>a. prompt_with (scene w) '''' = a @ ''    - Objects in Scene:\<newline>    '' @ template_tail"
    by (intro exI [of _ "template_head @ the (scene_name (scene w)) @ ''\<newline>    - Dominant Style: ''
          @ the (overall_style (scene w)) @ ''\<newline>    - Lighting Conditions: ''
          @ the (light_type (the (lighting (scene w)))) @ '' from ''
          @ the (light_source (the (lighting (scene w)))) @ ''\<newline>''"])
      (simp add: prompt_with_def prompt_template_def)
  then show "suffix (''    - Objects in Scene:\<newline>    '' @ template_tail) (prompt_with (scene w) '''')"
    by (simp only: suffix_def)
qed

theorem compose_empty_scene_witness:
  "conforms (scene empty_world) \<and> objects (scene empty_world) = Some [] \<and>
   create_curator_prompt empty_world = (Inr (prompt_with (scene empty_world) ''''), empty_world) \<and>
   suffix (''    - Objects in Scene:\<newline>    '' @ template_tail) (prompt_with (scene empty_world) '''')"
proof -
  have e: "objects (scene empty_world) = Some []"
    by (simp add: empty_world_def)
  from compose_empty_scene [OF empty_world_conforms e] empty_world_conforms e
  show ?thesis by blast
qed

text \<open>
  C5. On an input that conforms to the data model the composer raises no exception, writes
  nothing to standard output and changes nothing: it returns a string in the state it
  started from.
\<close>

theorem compose_no_exception:
  assumes "conforms (scene w)"
  shows "\<exists>p. create_curator_prompt w = (Inr p, w)"
  using create_curator_prompt_ok [OF assms] by blast

theorem compose_no_exception_witness:
  "conforms (scene loft_world) \<and> (\<exists>p. create_curator_prompt loft_world = (Inr p, loft_world))"
  by (rule conjI [OF loft_world_conforms compose_no_exception [OF loft_world_conforms]])

text \<open>
  C6. Whatever the scene, conforming or not, the composer leaves the state as it found it,
  the scene dictionary with all its fields, objects and tags included; and its outcome is
  the same in every state that holds an equal scene.
\<close>

theorem compose_pure:
  "snd (create_curator_prompt w) = w \<and>
   (scene w' = scene w \<longrightarrow> fst (create_curator_prompt w') = fst (create_curator_prompt w))"
  using read_only_create_curator_prompt determined_create_curator_prompt
  unfolding read_only_def scene_determined_def by blast

theorem compose_pure_witness:
  "scene (loft_world\<lparr>stdout := ''earlier output''\<rparr>) = scene loft_world \<and>
   snd (create_curator_prompt loft_world) = loft_world \<and>
   fst (create_curator_prompt (loft_world\<lparr>stdout := ''earlier output''\<rparr>)) =
     fst (create_curator_prompt loft_world)"
  using compose_pure [of loft_world "loft_world\<lparr>stdout := ''earlier output''\<rparr>"]
  by simp

text \<open>
  C7. For a scene with all fields present the prompt contains the three key names in
  double quotes, and it ends with the constraint block that asks for a single valid JSON
  object and nothing else.
\<close>

theorem compose_template_complete:
  assumes "conforms (scene w)"
  shows \<open>\<exists>p. fst (create_curator_prompt w) = Inr p \<and>
           sublist ''"title"'' p \<and> sublist ''"narrative"'' p \<and> sublist ''"design_suggestions"'' p \<and>
           suffix (''    **Constraint:**\<newline>'' @
                   ''    Your final output must be a single, valid JSON object and nothing else. Do not include any explanatory text before or after the JSON.\<newline>'' @
                   ''    '') p\<close>
proof -
  let ?p = "prompt_with (scene w) (str_join ''\<newline>'' (map object_text (scene_objects (scene w))))"
  have tail: "suffix template_tail ?p"
    by (simp add: prompt_with_def tail_in_prompt)
  have t1: \<open>sublist ''"title"'' template_tail\<close>
    by code_simp
  have t2: \<open>sublist ''"narrative"'' template_tail\<close>
    by code_simp
  have t3: \<open>sublist ''"design_suggestions"'' template_tail\<close>
    by code_simp
  have t4: \<open>suffix (''    **Constraint:**\<newline>'' @
                   ''    Your final output must be a single, valid JSON object and nothing else. Do not include any explanatory text before or after the JSON.\<newline>'' @
                   ''    '') template_tail\<close>
    by code_simp
  have "fst (create_curator_prompt w) = Inr ?p"
    by (simp add: create_curator_prompt_ok [OF assms])
  with sublist_of_suffix [OF t1 tail] sublist_of_suffix [OF t2 tail] sublist_of_suffix [OF t3 tail]
    suffix_order.trans [OF t4 tail]
  show ?thesis by blast
qed

theorem compose_template_complete_witness:
  \<open>conforms (scene loft_world) \<and>
   (\<exists>p. fst (create_curator_prompt loft_world) = Inr p \<and>
        sublist ''"title"'' p \<and> sublist ''"narrative"'' p \<and> sublist ''"design_suggestions"'' p \<and>
        suffix (''    **Constraint:**\<newline>'' @
                ''    Your final output must be a single, valid JSON object and nothing else. Do not include any explanatory text before or after the JSON.\<newline>'' @
                ''    '') p)\<close>
  by (rule conjI [OF loft_world_conforms compose_template_complete [OF loft_world_conforms]])

section \<open>Object lines in the returned string\<close>

lemma entry_contains:
  "sublist n (entry_text n m p ts) \<and> sublist m (entry_text n m p ts) \<and>
   sublist p (entry_text n m p ts) \<and> sublist (str_join '', '' ts) (entry_text n m p ts)"
proof -
  have "entry_text n m p ts = ''- '' @ n @ ('': Made of '' @ m @ ''. Positioned at: '' @ p @ ''. Tags: '' @ str_join '', '' ts @ ''.'')"
    and "entry_text n m p ts = (''- '' @ n @ '': Made of '') @ m @ (''. Positioned at: '' @ p @ ''. Tags: '' @ str_join '', '' ts @ ''.'')"
    and "entry_text n m p ts = (''- '' @ n @ '': Made of '' @ m @ ''. Positioned at: '') @ p @ (''. Tags: '' @ str_join '', '' ts @ ''.'')"
    and "entry_text n m p ts = (''- '' @ n @ '': Made of '' @ m @ ''. Positioned at: '' @ p @ ''. Tags: '') @ str_join '', '' ts @ ''.''"
    by (simp_all add: entry_text_def)
  then show ?thesis
    by (metis sublist_appendI)
qed

lemma object_text_contains:
  "sublist (the (obj_name obj)) (object_text obj) \<and>
   sublist (the (obj_material obj)) (object_text obj) \<and>
   sublist (the (obj_position obj)) (object_text obj) \<and>
   sublist (str_join '', '' (the (obj_tags obj))) (object_text obj)"
  unfolding object_text_def by (rule entry_contains)

lemma sublist_chain: "sublist a b \<Longrightarrow> sublist b c \<Longrightarrow> sublist a c"
proof -
  assume "sublist a b" and "sublist b c"
  then obtain p1 s1 p2 s2 where "b = p1 @ a @ s1" and "c = p2 @ b @ s2"
    by (auto simp: sublist_def)
  then have "c = (p2 @ p1) @ a @ (s1 @ s2)"
    by simp
  then show ?thesis
    unfolding sublist_def by blast
qed

text \<open>
  C3, as the code has it. For a scene with N objects and all fields present, the returned
  string holds the N entries, joined by single newlines in the order of the objects, right
  after four blanks of the template and right before the rest of the template. Each entry
  starts with a dash and a space and contains the name, the material, the position and the
  comma-separated tags of its object. The first entry is therefore not at the start of a
  line: when no text of the scene contains a newline, the lines of the returned string that
  start with a dash and a space are N - 1 in number (none when N = 0).
\<close>

theorem compose_object_line_fidelity:
  assumes "conforms (scene w)"
  shows "\<exists>p pre.
           fst (create_curator_prompt w) = Inr p \<and>
           p = pre @ ''    '' @ str_join ''\<newline>'' (map object_text (scene_objects (scene w))) @ template_tail \<and>
           (\<forall>obj \<in> set (scene_objects (scene w)).
              prefix ''- '' (object_text obj) \<and>
              sublist (the (obj_name obj)) (object_text obj) \<and>
              sublist (the (obj_material obj)) (object_text obj) \<and>
              sublist (the (obj_position obj)) (object_text obj) \<and>
              sublist (str_join '', '' (the (obj_tags obj))) (object_text obj)) \<and>
           (scene_single_line (scene w) \<longrightarrow> dash_lines p = length (scene_objects (scene w)) - 1)"
proof -
  let ?objs = "scene_objects (scene w)"
  let ?p = "prompt_with (scene w) (str_join ''\<newline>'' (map object_text ?objs))"
  let ?pre = "template_head @ the (scene_name (scene w)) @ ''\<newline>    - Dominant Style: ''
      @ the (overall_style (scene w)) @ ''\<newline>    - Lighting Conditions: ''
      @ the (light_type (the (lighting (scene w)))) @ '' from ''
      @ the (light_source (the (lighting (scene w)))) @ ''\<newline>    - Objects in Scene:\<newline>''"
  have run: "fst (create_curator_prompt w) = Inr ?p"
    by (simp add: create_curator_prompt_ok [OF assms])
  have shape: "?p = ?pre @ ''    '' @ str_join ''\<newline>'' (map object_text ?objs) @ template_tail"
    by (simp add: prompt_with_def prompt_template_def)
  have each: "\<forall>obj \<in> set ?objs.
              prefix ''- '' (object_text obj) \<and>
              sublist (the (obj_name obj)) (object_text obj) \<and>
              sublist (the (obj_material obj)) (object_text obj) \<and>
              sublist (the (obj_position obj)) (object_text obj) \<and>
              sublist (str_join '', '' (the (obj_tags obj))) (object_text obj)"
    by (simp add: entry_starts_with_dash object_text_contains)
  have count: "scene_single_line (scene w) \<longrightarrow> dash_lines ?p = length ?objs - 1"
    by (simp add: dash_lines_of_prompt)
  from run shape each count show ?thesis by blast
qed

theorem compose_object_line_fidelity_witness:
  "conforms (scene loft_world) \<and> scene_single_line (scene loft_world) \<and>
   scene_objects (scene loft_world) \<noteq> [] \<and>
   (\<exists>p. fst (create_curator_prompt loft_world) = Inr p \<and> sublist ''Leather Sofa'' p \<and> dash_lines p = 4)"
proof -
  have sl: "scene_single_line (scene loft_world)"
    by (simp add: loft_world_def scene_data_single_line)
  have n: "length (scene_objects (scene loft_world)) = 5"
    by (simp add: loft_world_def scene_objects_def scene_data_def)
  have sofa: "hd (scene_objects (scene loft_world)) \<in> set (scene_objects (scene loft_world))"
    and name: "the (obj_name (hd (scene_objects (scene loft_world)))) = ''Leather Sofa''"
    by (simp_all add: loft_world_def scene_objects_def scene_data_def)
  obtain p pre where p: "fst (create_curator_prompt loft_world) = Inr p"
    and shape: "p = pre @ ''    '' @ str_join ''\<newline>'' (map object_text (scene_objects (scene loft_world))) @ template_tail"
    and each: "\<forall>obj \<in> set (scene_objects (scene loft_world)).
              prefix ''- '' (object_text obj) \<and>
              sublist (the (obj_name obj)) (object_text obj) \<and>
              sublist (the (obj_material obj)) (object_text obj) \<and>
              sublist (the (obj_position obj)) (object_text obj) \<and>
              sublist (str_join '', '' (the (obj_tags obj))) (object_text obj)"
    and count: "scene_single_line (scene loft_world) \<longrightarrow> dash_lines p = length (scene_objects (scene loft_world)) - 1"
    using compose_object_line_fidelity [OF loft_world_conforms] by blast
  have d: "dash_lines p = 4"
    using count sl n by simp
  have "sublist ''Leather Sofa'' (object_text (hd (scene_objects (scene loft_world))))"
    using each sofa name by metis
  moreover have "sublist (object_text (hd (scene_objects (scene loft_world)))) p"
  proof -
    obtain o1 rest where objs: "scene_objects (scene loft_world) = o1 # rest"
      using n by (cases "scene_objects (scene loft_world)") auto
    have "str_join ''\<newline>'' (map object_text (o1 # rest)) = object_text o1 @ (if rest = [] then [] else ''\<newline>'' @ str_join ''\<newline>'' (map object_text rest))"
      by (cases rest) simp_all
    then have "p = (pre @ ''    '') @ object_text o1 @ ((if rest = [] then [] else ''\<newline>'' @ str_join ''\<newline>'' (map object_text rest)) @ template_tail)"
      using shape objs by simp
    then show ?thesis
      using objs by (metis list.sel(1) sublist_appendI)
  qed
  ultimately have "sublist ''Leather Sofa'' p"
    by (rule sublist_chain)
  with p d sl n loft_world_conforms show ?thesis
    by auto
qed

text \<open>
  The count that C3 states fails on the loft scene. It has five objects; four lines of
  its prompt start with a dash and a space, and thirteen do when leading blanks are
  skipped, since the template has eight such lines of its own.
\<close>

theorem dash_line_count_counterexample:
  "fst (create_curator_prompt loft_world) = Inr loft_prompt \<and>
   length (scene_objects (scene loft_world)) = 5 \<and>
   dash_lines loft_prompt = 4 \<and>
   indented_dash_lines loft_prompt = 13"
proof -
  have "fst (create_curator_prompt loft_world) = Inr loft_prompt"
    using create_curator_prompt_ok [OF loft_world_conforms]
    by (simp add: loft_prompt_def loft_world_def)
  moreover have n: "length (scene_objects scene_data) = 5"
    by (simp add: scene_objects_def scene_data_def)
  moreover have "dash_lines loft_prompt = 4"
    unfolding loft_prompt_def dash_lines_of_prompt [OF scene_data_single_line] n by simp
  moreover have "indented_dash_lines loft_prompt = 13"
    unfolding loft_prompt_def indented_dash_lines_of_prompt [OF scene_data_single_line] n by simp
  ultimately show ?thesis
    by (simp add: loft_world_def)
qed

section \<open>The mock response and the program\<close>

lemma mock_roundtrip: "json_loads (json_dumps mock_response 2) = Inr mock_response"
  unfolding mock_response_def by (rule content_roundtrip)

lemma generate_scene_content_ok:
  assumes "conforms (scene w)"
  shows "generate_scene_content w =
           (Inr (json_dumps mock_response 2),
            w\<lparr>stdout := stdout w @ ''--- Generated Prompt for LLM ---\<newline>''
               @ prompt_with (scene w) (str_join ''\<newline>'' (map object_text (scene_objects (scene w)))) @ ''\<newline>''
               @ ''---------------------------------\<newline>''\<rparr>)"
  by (simp add: generate_scene_content_def py_bind_def py_return_def print_def
      create_curator_prompt_ok [OF assms])

text \<open>
  C8. Encoding the mock response with \<open>json.dumps(mock_response, indent=2)\<close> and decoding
  the text with \<open>json.loads\<close> gives the mock response back; in particular the values
  under \<open>title\<close>, \<open>narrative\<close> and \<open>design_suggestions\<close> are those of the original.
\<close>

theorem mock_response_roundtrip:
  "json_loads (json_dumps mock_response 2) = Inr mock_response \<and>
   (case json_loads (json_dumps mock_response 2) of
      Inl e \<Rightarrow> False
    | Inr content_obj \<Rightarrow>
        json_getitem content_obj ''title'' = json_getitem mock_response ''title'' \<and>
        json_getitem content_obj ''narrative'' = json_getitem mock_response ''narrative'' \<and>
        json_getitem content_obj ''design_suggestions'' = json_getitem mock_response ''design_suggestions'' \<and>
        json_getitem content_obj ''title'' = Inr (JString ''Sun-Drenched Industrial Serenity''))"
  by (simp add: mock_roundtrip) (simp add: mock_response_def json_getitem_def)

text \<open>
  C9. Run as a script, the file does not get as far as its first statement: the module
  does not compile, \<open>SyntaxError\<close> is raised and nothing is printed. (Where \<open>await\<close> is
  allowed at top level, the main block runs to its end and prints, in this order, a
  headline, the prompt between two rules, the JSON text between two rules, and the title
  line.)
\<close>

theorem run_main_syntax_error:
  "run_main False loft_world = (Inl (SyntaxError await_outside_function), loft_world) \<and>
   stdout (snd (run_main False loft_world)) = [] \<and>
   run_main True loft_world = (Inr (), loft_world\<lparr>stdout := loft_output\<rparr>)"
proof -
  have blocked: "run_main False loft_world = (Inl (SyntaxError await_outside_function), loft_world)"
    by (simp add: run_main_def py_raise_def)
  have title: "json_getitem mock_response ''title'' = Inr (JString ''Sun-Drenched Industrial Serenity'')"
    by (simp add: mock_response_def json_getitem_def)
  have gen: "generate_scene_content \<lparr>scene = scene_data, stdout = out\<rparr>
      = (Inr (json_dumps mock_response 2),
         \<lparr>scene = scene_data,
          stdout = out @ ''--- Generated Prompt for LLM ---\<newline>'' @ loft_prompt @ ''\<newline>''
               @ ''---------------------------------\<newline>''\<rparr>)" for out
    using generate_scene_content_ok [of "\<lparr>scene = scene_data, stdout = out\<rparr>"] scene_data_conforms
    by (simp add: loft_prompt_def)
  have "main_block loft_world = (Inr (), loft_world\<lparr>stdout := loft_output\<rparr>)"
    unfolding main_block_def
    by (simp add: py_bind_def gen mock_roundtrip title py_lift_def py_return_def
        format_json_def print_def loft_output_def loft_world_def)
  then have allowed: "run_main True loft_world = (Inr (), loft_world\<lparr>stdout := loft_output\<rparr>)"
    by (simp add: run_main_def)
  from blocked allowed show ?thesis
    by (simp add: loft_world_def)
qed

text \<open>
  C10. For two scenes that conform to the data model, \<open>generate_scene_content\<close> returns the
  same string, the encoding of the mock response with indent 2, whatever the scenes are.
\<close>

theorem generate_scene_content_constant:
  assumes "conforms (scene w1)" and "conforms (scene w2)"
  shows "fst (generate_scene_content w1) = Inr (json_dumps mock_response 2) \<and>
         fst (generate_scene_content w2) = fst (generate_scene_content w1)"
  by (simp add: generate_scene_content_ok [OF assms(1)] generate_scene_content_ok [OF assms(2)])

theorem generate_scene_content_constant_witness:
  "conforms (scene loft_world) \<and> conforms (scene empty_world) \<and>
   scene loft_world \<noteq> scene empty_world \<and>
   fst (generate_scene_content loft_world) = Inr (json_dumps mock_response 2) \<and>
   fst (generate_scene_content empty_world) = fst (generate_scene_content loft_world)"
proof -
  have "scene loft_world \<noteq> scene empty_world"
    by (simp add: loft_world_def empty_world_def scene_data_def)
  with generate_scene_content_constant [OF loft_world_conforms empty_world_conforms]
    loft_world_conforms empty_world_conforms
  show ?thesis by blast
qed

end
